theory Spec2Isabelle
  imports Complex_Main "HOL-Library.Sublist"
begin

section \<open>Python and numpy primitives used by the pipeline\<close>

text \<open>
  Exceptions of the Python code are values. The string of a \<open>ValueError\<close> names the
  check that raised it.
\<close>

datatype error = ValueError string | ZeroDivisionError | AxisError | IndexError

text \<open>
  \<^verbatim>\<open>int(x)\<close> on a number truncates towards zero. Floating-point numbers are
  idealised as exact rationals or reals in \<open>sync_data\<close> and \<open>movingstd\<close>; the
  severity of a window is computed with 64-bit integers and binary64 rounding as numpy does.
\<close>

definition py_int :: "rat \<Rightarrow> int" where
  "py_int x = (if 0 \<le> x then \<lfloor>x\<rfloor> else \<lceil>x\<rceil>)"

text \<open>
  The start of a slice \<^verbatim>\<open>a[k:]\<close>: a negative \<open>k\<close> counts from the end, and the
  result is clipped to the array.
\<close>

definition slice_start :: "nat \<Rightarrow> int \<Rightarrow> nat" where
  "slice_start n k = (if k < 0 then nat (max 0 (int n + k)) else min n (nat k))"

text \<open>\<^verbatim>\<open>a[k:]\<close> and \<^verbatim>\<open>a[:k]\<close> for any integer \<open>k\<close>.\<close>

definition slice_from :: "'a list \<Rightarrow> int \<Rightarrow> 'a list" where
  "slice_from xs k = drop (slice_start (length xs) k) xs"

definition slice_upto :: "'a list \<Rightarrow> int \<Rightarrow> 'a list" where
  "slice_upto xs k = take (slice_start (length xs) k) xs"

section \<open>read\_data.py: the synchronisation step\<close>

text \<open>
  \<^verbatim>\<open>
  def sync_data(acc_data, label_data, chorea_labels, sync_sec, ACC_SAMPLE_RATE):
      acc_time_before_sync_event = int(ACC_SAMPLE_RATE*sync_sec[1])
      label_time_before_sync_event = int(ACC_SAMPLE_RATE*sync_sec[0])
      acc_data = acc_data[np.maximum(0, acc_time_before_sync_event-label_time_before_sync_event):]
      video_first_index = np.maximum(0, label_time_before_sync_event-acc_time_before_sync_event)
      label_data = label_data[video_first_index:]
      chorea_labels = chorea_labels[video_first_index:]
      # trim the end
      acc_data = acc_data[:label_data.shape[0]]
      video_first_sec = video_first_index / ACC_SAMPLE_RATE
      time_data = np.array(range(label_data.shape[0])) / ACC_SAMPLE_RATE + video_first_sec
      return acc_data, label_data, chorea_labels, time_data
  \<close>
  The three arrays are lists over their first axis; \<open>sync_sec\<close> is the pair
  (\<open>sync_sec[0]\<close>, \<open>sync_sec[1]\<close>) = (label-side seconds, signal-side seconds).
  The two anchors in samples are named as in the source.
\<close>

definition acc_time_before_sync_event :: "rat \<times> rat \<Rightarrow> rat \<Rightarrow> int" where
  "acc_time_before_sync_event sync_sec rate = py_int (rate * snd sync_sec)"

definition label_time_before_sync_event :: "rat \<times> rat \<Rightarrow> rat \<Rightarrow> int" where
  "label_time_before_sync_event sync_sec rate = py_int (rate * fst sync_sec)"

definition sync_data ::
  "'a list \<Rightarrow> 'b list \<Rightarrow> 'c list \<Rightarrow> rat \<times> rat \<Rightarrow> rat
    \<Rightarrow> 'a list \<times> 'b list \<times> 'c list \<times> rat list" where
  "sync_data acc_data label_data chorea_labels sync_sec rate =
     (let a = acc_time_before_sync_event sync_sec rate;
          l = label_time_before_sync_event sync_sec rate;
          acc1 = slice_from acc_data (max 0 (a - l));
          video_first_index = max 0 (l - a);
          label1 = slice_from label_data video_first_index;
          chorea1 = slice_from chorea_labels video_first_index;
          acc2 = slice_upto acc1 (int (length label1));
          video_first_sec = of_int video_first_index / rate;
          time_data = map (\<lambda>i. of_nat i / rate + video_first_sec) [0 ..< length label1]
      in (acc2, label1, chorea1, time_data))"

section \<open>preprocessing.py: the moving standard deviation\<close>

text \<open>
  \<^verbatim>\<open>str.lower()\<close> on the characters of an Isabelle string (bytes): the letters
  \<open>A\<close> to \<open>Z\<close> move to \<open>a\<close> to \<open>z\<close>, every other character stays.
\<close>

definition lower_char :: "char \<Rightarrow> char" where
  "lower_char c =
     (let n = (of_char c :: nat) in if 65 \<le> n \<and> n \<le> 90 then char_of (n + 32) else c)"

definition lower :: "string \<Rightarrow> string" where
  "lower s = map lower_char s"

text \<open>\<^verbatim>\<open>valid = ['central', 'forward', 'backward']\<close>\<close>

definition valid :: "string list" where
  "valid = [''central'', ''forward'', ''backward'']"

text \<open>
  \<^verbatim>\<open>np.mean\<close>, \<^verbatim>\<open>np.std\<close> (population standard deviation) and
  \<^verbatim>\<open>np.ones\<close> on one-dimensional arrays, over the reals.
\<close>

definition mean :: "real list \<Rightarrow> real" where
  "mean xs = sum_list xs / of_nat (length xs)"

definition std :: "real list \<Rightarrow> real" where
  "std xs = sqrt (mean (map (\<lambda>x. \<bar>x - mean xs\<bar> ^ 2) xs))"

definition ones :: "nat \<Rightarrow> real list" where
  "ones k = replicate k 1"

text \<open>
  \<^verbatim>\<open>np.convolve(a, v, mode='same')\<close>: the full discrete convolution has
  \<open>len(a) + len(v) - 1\<close> entries, \<open>full[i] = sum_j a[j] * v[i - j]\<close>; mode
  \<open>same\<close> returns the \<open>max(len(a), len(v))\<close> entries of it that start at
  \<open>(min(len(a), len(v)) - 1) // 2\<close>. numpy raises on an empty argument; both
  arguments are non-empty wherever \<open>movingstd\<close> convolves.
\<close>

definition convolve_full :: "real list \<Rightarrow> real list \<Rightarrow> real list" where
  "convolve_full a v =
     map (\<lambda>i. \<Sum>j\<leftarrow>[0 ..< length a]. if j \<le> i \<and> i - j < length v then a ! j * v ! (i - j) else 0)
       [0 ..< length a + length v - 1]"

definition convolve_same :: "real list \<Rightarrow> real list \<Rightarrow> real list" where
  "convolve_same a v =
     take (max (length a) (length v))
       (drop ((min (length a) (length v) - 1) div 2) (convolve_full a v))"

text \<open>
  The three branches of \<open>movingstd\<close>, each as the source writes it
  (\<open>k\<close> is \<open>window_size\<close>, \<open>data2\<close> the squared series):
  \<^verbatim>\<open>
  if windowmode == 'central':
      B = np.ones(2 * window_size + 1)
      s = np.sqrt(
          (np.convolve(data2, B, mode='same') - np.convolve(data, B, mode='same') ** 2 * (1 / (2 * window_size + 1)))
          / (2 * window_size))
  elif windowmode == 'forward':
      B = np.ones(window_size)
      s = np.sqrt((np.convolve(data2, B, mode='same') - np.convolve(data, B, mode='same') ** 2 * (1 / window_size)) /
                  (window_size - 1))
  elif windowmode == 'backward':
      B = np.ones(window_size)
      s = np.sqrt((np.convolve(data2, B, mode='same') - np.convolve(data, B, mode='same') ** 2 * (1 / window_size)) /
                  (window_size - 1))
  \<close>
\<close>

definition s_central :: "real list \<Rightarrow> real list \<Rightarrow> int \<Rightarrow> real list" where
  "s_central data data2 k =
     (let B = ones (nat (2 * k + 1))
      in map (\<lambda>(c2, c1). sqrt ((c2 - c1 ^ 2 * (1 / of_int (2 * k + 1))) / of_int (2 * k)))
           (zip (convolve_same data2 B) (convolve_same data B)))"

definition s_forward :: "real list \<Rightarrow> real list \<Rightarrow> int \<Rightarrow> real list" where
  "s_forward data data2 k =
     (let B = ones (nat k)
      in map (\<lambda>(c2, c1). sqrt ((c2 - c1 ^ 2 * (1 / of_int k)) / of_int (k - 1)))
           (zip (convolve_same data2 B) (convolve_same data B)))"

definition s_backward :: "real list \<Rightarrow> real list \<Rightarrow> int \<Rightarrow> real list" where
  "s_backward data data2 k =
     (let B = ones (nat k)
      in map (\<lambda>(c2, c1). sqrt ((c2 - c1 ^ 2 * (1 / of_int k)) / of_int (k - 1)))
           (zip (convolve_same data2 B) (convolve_same data B)))"

text \<open>
  \<open>movingstd(data, window_size, windowmode)\<close>. The data is a list of rows with three
  channels; \<open>window_size\<close> is a Python \<open>int\<close> and \<open>windowmode\<close> a \<open>str\<close>, so
  the two \<open>isinstance\<close> tests pass. The checks come in the order of the source and
  each raises \<open>ValueError\<close>; the model's message names the check. The arithmetic is over
  the reals (no rounding, and \<open>x / 0 = 0\<close> where numpy gives \<open>nan\<close> or \<open>inf\<close>).
\<close>

definition movingstd :: "(real \<times> real \<times> real) list \<Rightarrow> int \<Rightarrow> string \<Rightarrow> error + real list" where
  "movingstd data window_size windowmode0 =
     (if lower windowmode0 \<notin> set valid then Inl (ValueError ''windowmode'')
      else
        let windowmode = lower windowmode0;
            n = int (length data)
        in if window_size < 1 then Inl (ValueError ''window_size'')
           else if windowmode = ''central'' \<and> window_size < 1 then Inl (ValueError ''window_size central'')
           else if (windowmode \<noteq> ''central'' \<and> window_size < 2) \<or> n < window_size
             then Inl (ValueError ''window_size is too large for this short of a series'')
           else
             let magnitude = map (\<lambda>(x, y, z). sqrt (x ^ 2 + y ^ 2 + z ^ 2)) data;
                 centred = map (\<lambda>x. x - mean magnitude) magnitude;
                 data_std = std centred;
                 data1 = map (\<lambda>x. x / data_std) centred;
                 data2 = map (\<lambda>x. x ^ 2) data1;
                 s = (if windowmode = ''central'' then s_central data1 data2 window_size
                      else if windowmode = ''forward'' then s_forward data1 data2 window_size
                      else s_backward data1 data2 window_size)
             in Inr (map (\<lambda>x. x * data_std) s))"

section \<open>preprocessing.py: windowing\<close>

text \<open>
  Arrays that the code may write to live in a store: a list of integer arrays, an
  address being a position in it. A new array is put at the end.
\<close>

type_synonym addr = nat
type_synonym store = "int list list"

definition alloc :: "store \<Rightarrow> int list \<Rightarrow> addr \<times> store" where
  "alloc h xs = (length h, h @ [xs])"

text \<open>
  \<^verbatim>\<open>a[a == 1]\<close>: indexing with a boolean mask selects the entries equal to 1
  into a new array (numpy copies here, it does not give a view).
\<close>

definition mask_select :: "int list \<Rightarrow> int list" where
  "mask_select a = filter (\<lambda>v. v = 1) a"

text \<open>\<^verbatim>\<open>a[k:] = v\<close> on the array itself.\<close>

definition assign_from :: "int list \<Rightarrow> int \<Rightarrow> int \<Rightarrow> int list" where
  "assign_from a k v =
     (let s = slice_start (length a) k in take s a @ replicate (length a - s) v)"

text \<open>
  \<^verbatim>\<open>sliding_window_view(x, w, 0)\<close>: every run of \<open>w\<close> consecutive entries along
  the first axis, \<open>len(x) - w + 1\<close> of them; it raises when \<open>w\<close> exceeds the length.
  A window of the signal is kept as its \<open>w\<close> rows in order (numpy puts the window
  axis last, shape \<open>(3, w)\<close>: the same entries, transposed).
\<close>

definition sliding_window_view :: "'a list \<Rightarrow> nat \<Rightarrow> error + 'a list list" where
  "sliding_window_view x w =
     (if length x < w
      then Inl (ValueError ''window shape cannot be larger than input array shape'')
      else Inr (map (\<lambda>i. take w (drop i x)) [0 ..< length x - w + 1]))"

text \<open>
  \<^verbatim>\<open>xs[::s]\<close> for a step \<open>s \<noteq> 0\<close>: every \<open>s\<close>-th entry from the first one, or for
  a negative step every \<open>|s|\<close>-th entry from the last one backwards. (Step 0 cannot
  reach the slice in \<open>data_windowing\<close>: the division by it has raised before.)
\<close>

definition step_slice :: "'a list \<Rightarrow> int \<Rightarrow> 'a list" where
  "step_slice xs s =
     (if 0 < s then map (\<lambda>k. xs ! (k * nat s)) [0 ..< (length xs + nat s - 1) div nat s]
      else if s < 0
        then map (\<lambda>k. rev xs ! (k * nat (- s))) [0 ..< (length xs + nat (- s) - 1) div nat (- s)]
      else [])"

text \<open>
  \<^verbatim>\<open>scipy.stats.mode\<close> on one window: the most common value, the smallest one when
  several are equally common. scipy goes through the distinct values in increasing order
  and keeps a value when its count is strictly greater than the best count so far,
  starting from value 0 with count 0.
\<close>

definition mode_step :: "int list \<Rightarrow> int \<times> nat \<Rightarrow> int \<Rightarrow> int \<times> nat" where
  "mode_step a best score =
     (let counts = count_list a score
      in (if snd best < counts then score else fst best, max counts (snd best)))"

definition mode :: "int list \<Rightarrow> int" where
  "mode a = fst (foldl (mode_step a) (0, 0) (sort (remdups a)))"

text \<open>
  numpy's \<open>int64\<close>: a sum of 64-bit integers wraps around modulo \<open>2^64\<close> into the
  range from \<open>-2^63\<close> to \<open>2^63 - 1\<close>.
\<close>

definition wrap64 :: "int \<Rightarrow> int" where
  "wrap64 x = (x + 2 ^ 63) mod 2 ^ 64 - 2 ^ 63"

text \<open>
  numpy's \<open>float64\<close> (IEEE binary64, round to nearest, ties to even) on the rationals.
  \<open>bitlen n\<close> is the number of binary digits of \<open>n\<close>, \<open>pow2 e\<close> is \<open>2^e\<close> for an
  integer \<open>e\<close>, and \<open>ilog2 a\<close> is the exponent \<open>e\<close> with \<open>2^e \<le> a < 2^(e+1)\<close> of a
  positive \<open>a\<close>. A double with this exponent is a multiple of \<open>2^(e-52)\<close>, and
  \<open>float64_round\<close> takes the nearest multiple. Subnormal numbers and overflow to
  infinity are left out: the quotient of two non-zero 64-bit integers lies between
  \<open>2^-63\<close> and \<open>2^63\<close>.
\<close>

function bitlen :: "int \<Rightarrow> nat" where
  "bitlen n = (if n \<le> 0 then 0 else Suc (bitlen (n div 2)))"
  by pat_completeness auto
termination
  by (relation "measure nat") auto

declare bitlen.simps [simp del]

definition pow2 :: "int \<Rightarrow> rat" where
  "pow2 e = (if 0 \<le> e then 2 ^ nat e else 1 / 2 ^ nat (- e))"

definition ilog2 :: "rat \<Rightarrow> int" where
  "ilog2 a = (if 1 \<le> a then int (bitlen \<lfloor>a\<rfloor>) - 1
              else - int (bitlen (\<lceil>1 / a\<rceil> - 1)))"

definition round_half_even :: "rat \<Rightarrow> int" where
  "round_half_even m =
     (let f = \<lfloor>m\<rfloor>; d = m - of_int f
      in if d < 1 / 2 then f else if 1 / 2 < d then f + 1 else if even f then f else f + 1)"

definition float64_round :: "rat \<Rightarrow> rat" where
  "float64_round q =
     (if q = 0 then 0
      else let a = \<bar>q\<bar>; u = pow2 (ilog2 a - 52)
           in sgn q * of_int (round_half_even (a / u)) * u)"

text \<open>
  \<^verbatim>\<open>s / c\<close> on two \<open>int64\<close> values: both are converted to \<open>float64\<close> and
  divided there. (It is only reached with \<open>c > 0\<close>.)
\<close>

definition float64_divide :: "int \<Rightarrow> int \<Rightarrow> rat" where
  "float64_divide s c = float64_round (float64_round (of_int s) / float64_round (of_int c))"

text \<open>
  The severity of the windows, as the source computes it:
  \<^verbatim>\<open>
  chorea_valid_samples = np.sum(windowed_chorea>=0, axis=1)
  windowed_chorea_sum = np.sum(windowed_chorea*(windowed_chorea>=0), axis=1)
  windowed_chorea = [windowed_chorea_sum[i]/chorea_valid_samples[i]
                     if chorea_valid_samples[i] > windowed_data.shape[-1]/2 else -1
                     for i in range(len(windowed_chorea_sum))]
  \<close>
  The severity codes are \<open>int64\<close> values. The sum of a window is an \<open>int64\<close> sum and
  wraps; the count of valid samples is at most the window size and does not.
  \<open>windowed_data.shape[-1]\<close> is the window size, the comparison with its half is
  exact for window sizes below \<open>2^53\<close>, and \<open>/\<close> is the division of \<open>float64\<close>.
\<close>

definition chorea_valid_samples :: "int list list \<Rightarrow> int list" where
  "chorea_valid_samples windowed_chorea =
     map (\<lambda>w. sum_list (map (\<lambda>c. if 0 \<le> c then 1 else 0) w)) windowed_chorea"

definition windowed_chorea_sum :: "int list list \<Rightarrow> int list" where
  "windowed_chorea_sum windowed_chorea =
     map (\<lambda>w. wrap64 (sum_list (map (\<lambda>c. c * (if 0 \<le> c then 1 else 0)) w))) windowed_chorea"

definition chorea_reduce :: "int list list \<Rightarrow> nat \<Rightarrow> rat list" where
  "chorea_reduce windowed_chorea w =
     (let valid_samples = chorea_valid_samples windowed_chorea;
          sum_w = windowed_chorea_sum windowed_chorea
      in map (\<lambda>i. if of_nat w / 2 < (of_int (valid_samples ! i) :: rat)
                   then float64_divide (sum_w ! i) (valid_samples ! i) else - 1)
           [0 ..< length sum_w])"

text \<open>What \<open>data_windowing\<close> returns; \<open>inclusion_idx\<close> is the address of the mask.\<close>

record 'a windowed =
  windowed_data_all :: "'a list list"
  windowed_labels_all :: "int list"
  windowed_chorea_all :: "rat list"
  inclusion_idx :: addr
  NumWin :: nat

text \<open>
  Lines 162 to 179 of \<open>data_windowing\<close>: the three sliding views, subsampled with the
  stride, and the reduction of the labels. \<open>.squeeze()\<close> drops every axis of length 1
  from the label and severity windows, so they stay two-dimensional only with at least
  two windows and a window size other than 1; otherwise \<open>shape[0]\<close> of a 0-dimensional
  array, \<open>np.sum(..., axis=1)\<close> or \<open>mode(..., axis=1)\<close> raises. Windows of size 0
  have no mode to append, which raises in \<open>np.append\<close>. The result of \<open>mode\<close> keeps
  the reduced axis (shape \<open>(NumWin, 1)\<close>), as the \<open>np.append\<close> onto an array of shape
  \<open>(0, 1)\<close> needs; the signal has three channels, as its \<open>np.append\<close> needs.
\<close>

definition windows :: "'a list \<Rightarrow> int list \<Rightarrow> int list \<Rightarrow> nat \<Rightarrow> int \<Rightarrow> addr \<Rightarrow> error + 'a windowed" where
  "windows data labels chorea w non_overlap incl =
     (case sliding_window_view data w of Inl e \<Rightarrow> Inl e | Inr view_data \<Rightarrow>
      case sliding_window_view labels w of Inl e \<Rightarrow> Inl e | Inr view_labels \<Rightarrow>
      case sliding_window_view chorea w of Inl e \<Rightarrow> Inl e | Inr view_chorea \<Rightarrow>
        let windowed_data = step_slice view_data non_overlap;
            windowed_labels = step_slice view_labels non_overlap;
            windowed_chorea = step_slice view_chorea non_overlap
        in if length windowed_labels = 1 \<and> w = 1 then Inl IndexError
           else if \<not> (2 \<le> length windowed_chorea \<and> w \<noteq> 1) then Inl AxisError
           else if \<not> (2 \<le> length windowed_labels \<and> w \<noteq> 1) then Inl AxisError
           else if w = 0
             then Inl (ValueError ''all the input arrays must have same number of dimensions'')
           else Inr \<lparr>windowed_data_all = windowed_data,
                     windowed_labels_all = map mode windowed_labels,
                     windowed_chorea_all = chorea_reduce windowed_chorea w,
                     inclusion_idx = incl,
                     NumWin = length windowed_labels\<rparr>)"

text \<open>
  \<^verbatim>\<open>
  def data_windowing(data, labels, chorea, window_size, window_overlap, std_idx):
      windowed_data_all = np.empty((0, 3, window_size))
      ...
      non_overlap = window_size - window_overlap
      inclusion_idx = std_idx[std_idx == 1]
      upper_limit = data.shape[0] // non_overlap * non_overlap
      inclusion_idx[upper_limit - window_overlap:] = 0
      ...
      return windowed_data_all, windowed_labels_all, windowed_chorea_all, inclusion_idx, NumWin
  \<close>
  \<open>std_idx\<close> is the address of the caller's mask in the store \<open>h\<close>; the other arrays
  are only read and are passed as values. The result comes with the store after the call.
\<close>

definition data_windowing ::
  "store \<Rightarrow> 'a list \<Rightarrow> int list \<Rightarrow> int list \<Rightarrow> int \<Rightarrow> int \<Rightarrow> addr
    \<Rightarrow> (error + 'a windowed) \<times> store" where
  "data_windowing h data labels chorea window_size window_overlap std_idx =
     (if window_size < 0 then (Inl (ValueError ''negative dimensions are not allowed''), h)
      else
        let non_overlap = window_size - window_overlap;
            (inclusion_idx, h1) = alloc h (mask_select (h ! std_idx))
        in if non_overlap = 0 then (Inl ZeroDivisionError, h1)
           else
             let upper_limit = int (length data) div non_overlap * non_overlap;
                 h2 = h1[inclusion_idx :=
                           assign_from (h1 ! inclusion_idx) (upper_limit - window_overlap) 0]
             in (windows data labels chorea (nat window_size) non_overlap inclusion_idx, h2))"

section \<open>Notions of the specification and a worked example\<close>

text \<open>
  Following the spec's words: the statistical mode of the codes of a window, ties broken
  by the lowest code value. \<open>m\<close> occurs in \<open>xs\<close>, no code occurs more often, and no
  smaller code occurs as often.
\<close>

definition is_lowest_mode :: "int list \<Rightarrow> int \<Rightarrow> bool" where
  "is_lowest_mode xs m \<longleftrightarrow>
     m \<in> set xs \<and> (\<forall>v \<in> set xs. count_list xs v \<le> count_list xs m \<and>
                      (count_list xs v = count_list xs m \<longrightarrow> m \<le> v))"

text \<open>
  Following the spec's words: samples carrying the reserved code \<open>-9\<close> are excluded from
  the majority vote.
\<close>

definition spec_votes :: "int list \<Rightarrow> int list" where
  "spec_votes w = filter (\<lambda>c. c \<noteq> - 9) w"

text \<open>
  The state of scipy's loop after the distinct values \<open>ps\<close> have been visited: nothing
  counted yet, or the lowest of the most common values of \<open>ps\<close> with its count.
\<close>

definition mode_inv :: "int list \<Rightarrow> int list \<Rightarrow> int \<times> nat \<Rightarrow> bool" where
  "mode_inv a ps best \<longleftrightarrow>
     (ps = [] \<and> snd best = 0) \<or>
     (fst best \<in> set ps \<and> snd best = count_list a (fst best) \<and> 0 < snd best \<and>
      (\<forall>v \<in> set ps. count_list a v \<le> snd best \<and> (count_list a v = snd best \<longrightarrow> fst best \<le> v)))"

text \<open>
  A recording of 8 samples, windowed with \<open>window_size = 3\<close> and
  \<open>window_overlap = 1\<close>; the caller's mask is the only array in the store, at address 0.
  \<open>ex_result\<close> is what the call returns.
\<close>

definition ex_store :: store where
  "ex_store = [ [1, 1, 1, 1, 1, 1, 1, 1] ]"

definition ex_data :: "(int \<times> int \<times> int) list" where
  "ex_data = [(0, 0, 9), (1, 0, 9), (2, 1, 9), (3, 1, 8), (4, 2, 8), (5, 2, 8), (6, 3, 7), (7, 3, 7)]"

definition ex_labels :: "int list" where
  "ex_labels = [0, 0, 1, 1, 1, - 9, - 9, 1]"

definition ex_chorea :: "int list" where
  "ex_chorea = [- 1, 2, 3, - 1, - 1, 0, 4, 2]"


definition ex_result :: "(int \<times> int \<times> int) windowed" where
  "ex_result =
     \<lparr>windowed_data_all = [ [(0, 0, 9), (1, 0, 9), (2, 1, 9)], [(2, 1, 9), (3, 1, 8), (4, 2, 8)],
                            [(4, 2, 8), (5, 2, 8), (6, 3, 7)] ],
      windowed_labels_all = [0, 1, - 9],
      windowed_chorea_all = [5 / 2, - 1, 2],
      inclusion_idx = 1, NumWin = 3\<rparr>"


section \<open>Properties of the synchronisation step\<close>

lemma slice_from_nonneg: "0 \<le> k \<Longrightarrow> slice_from xs k = drop (nat k) xs"
  by (simp add: slice_from_def slice_start_def min_def)

lemma slice_upto_nonneg: "0 \<le> k \<Longrightarrow> slice_upto xs k = take (nat k) xs"
  by (simp add: slice_upto_def slice_start_def min_def)

lemma sync_data_unfold:
  "sync_data acc lab cho sync_sec rate =
     (let d = acc_time_before_sync_event sync_sec rate
                - label_time_before_sync_event sync_sec rate;
          label1 = drop (nat (- d)) lab
      in (take (length label1) (drop (nat d) acc), label1, drop (nat (- d)) cho,
          map (\<lambda>i. of_nat i / rate + of_int (max 0 (- d)) / rate) [0 ..< length label1]))"
  by (simp add: sync_data_def Let_def slice_from_nonneg slice_upto_nonneg max_def)

text \<open>
  C1 (the code misses a case of it). The docstring of \<open>sync_data\<close> promises arrays of the
  same size, but only the signal is trimmed at the end: a signal of 5 samples with 10
  labels and both anchors at zero comes back as 5 signal samples beside 10 category
  labels, 10 severity labels and 10 time stamps.
\<close>

theorem sync_data_short_signal_lengths:
  "length (fst (sync_data [1, 2, 3, 4, 5 :: int] (replicate 10 (0 :: int))
                  (replicate 10 (- 1 :: int)) (0, 0) 100)) = 5 \<and>
   length (fst (snd (sync_data [1, 2, 3, 4, 5 :: int] (replicate 10 (0 :: int))
                  (replicate 10 (- 1 :: int)) (0, 0) 100))) = 10 \<and>
   length (fst (snd (snd (sync_data [1, 2, 3, 4, 5 :: int] (replicate 10 (0 :: int))
                  (replicate 10 (- 1 :: int)) (0, 0) 100)))) = 10 \<and>
   length (snd (snd (snd (sync_data [1, 2, 3, 4, 5 :: int] (replicate 10 (0 :: int))
                  (replicate 10 (- 1 :: int)) (0, 0) 100)))) = 10"
  by (simp add: sync_data_unfold acc_time_before_sync_event_def
      label_time_before_sync_event_def py_int_def)

text \<open>
  C6. With \<open>d\<close> the signal anchor minus the label anchor, both in samples: for
  \<open>d > 0\<close> the signal loses exactly its first \<open>d\<close> samples (and then its end, down to
  the label length) while the label and severity streams are returned whole; for
  \<open>d < 0\<close> the label and severity streams lose exactly their first \<open>|d|\<close> samples
  and the signal keeps its start. In every case each of the three returned data streams
  is a contiguous slice of the stream it came from, so no sample is synthesised.
\<close>

theorem sync_data_only_trims:
  "(let d = acc_time_before_sync_event sync_sec rate
              - label_time_before_sync_event sync_sec rate
    in case sync_data acc lab cho sync_sec rate of
      (acc', lab', cho', tim) \<Rightarrow>
        (0 < d \<longrightarrow> acc' = take (length lab') (drop (nat d) acc) \<and> lab' = lab \<and> cho' = cho) \<and>
        (d < 0 \<longrightarrow> acc' = take (length lab') acc \<and> lab' = drop (nat \<bar>d\<bar>) lab
                    \<and> cho' = drop (nat \<bar>d\<bar>) cho) \<and>
        sublist acc' acc \<and> sublist lab' lab \<and> sublist cho' cho)"
proof -
  have "sublist (take n (drop k acc)) acc" for n k
    using sublist_take [of n "drop k acc"] sublist_drop [of k acc]
    by (rule sublist_order.order_trans)
  then show ?thesis
    by (simp add: sync_data_unfold Let_def)
qed

theorem sync_data_only_trims_witness:
  "sync_data [1, 2, 3, 4, 5, 6, 7 :: int] [0, 1, 1 :: int] [- 1, 2, 3 :: int] (1 / 100, 3 / 100) 100
     = ([3, 4, 5], [0, 1, 1], [- 1, 2, 3], [0, 1 / 100, 2 / 100])
   \<and> sync_data [1, 2, 3, 4, 5, 6, 7 :: int] [0, 1, 1, 0 :: int] [- 1, 2, 3, 1 :: int] (3 / 100, 1 / 100) 100
     = ([1, 2], [1, 0], [3, 1], [2 / 100, 3 / 100])"
proof -
  have a: "acc_time_before_sync_event (1 / 100, 3 / 100) 100 = 3"
    "label_time_before_sync_event (1 / 100, 3 / 100) 100 = 1"
    "acc_time_before_sync_event (3 / 100, 1 / 100) 100 = 1"
    "label_time_before_sync_event (3 / 100, 1 / 100) 100 = 3"
    by (simp_all add: acc_time_before_sync_event_def label_time_before_sync_event_def py_int_def)
  have t: "snd (snd (snd (sync_data [1, 2, 3, 4, 5, 6, 7 :: int] [0, 1, 1 :: int] [- 1, 2, 3 :: int]
               (1 / 100, 3 / 100) 100))) = [0, 1 / 100, 2 / 100]"
    "snd (snd (snd (sync_data [1, 2, 3, 4, 5, 6, 7 :: int] [0, 1, 1, 0 :: int] [- 1, 2, 3, 1 :: int]
               (3 / 100, 1 / 100) 100))) = [2 / 100, 3 / 100]"
    by (simp_all add: sync_data_def Let_def a slice_from_def slice_start_def upt_rec)
  show ?thesis
    using sync_data_only_trims [of "(1 / 100, 3 / 100)" 100 "[1, 2, 3, 4, 5, 6, 7 :: int]"
        "[0, 1, 1 :: int]" "[- 1, 2, 3 :: int]"]
      sync_data_only_trims [of "(3 / 100, 1 / 100)" 100 "[1, 2, 3, 4, 5, 6, 7 :: int]"
        "[0, 1, 1, 0 :: int]" "[- 1, 2, 3, 1 :: int]"] t
    by (simp add: a Let_def split: prod.splits)
qed

text \<open>
  C9. On streams of equal length with both anchors at zero, the signal, the category
  labels and the severity labels are returned as they were given.
\<close>

theorem sync_data_aligned_unchanged:
  assumes "length acc = length lab" and "length cho = length lab"
  shows "case sync_data acc lab cho (0, 0) rate of
           (acc', lab', cho', tim) \<Rightarrow> acc' = acc \<and> lab' = lab \<and> cho' = cho"
  using assms
  by (simp add: sync_data_unfold acc_time_before_sync_event_def
      label_time_before_sync_event_def py_int_def)

theorem sync_data_aligned_unchanged_witness:
  "sync_data [7, 8, 9 :: int] [0, 1, - 9 :: int] [- 1, 0, 2 :: int] (0, 0) 100
     = ([7, 8, 9], [0, 1, - 9], [- 1, 0, 2], [0, 1 / 100, 2 / 100])"
proof -
  have t: "snd (snd (snd (sync_data [7, 8, 9 :: int] [0, 1, - 9 :: int] [- 1, 0, 2 :: int]
               (0, 0) 100))) = [0, 1 / 100, 2 / 100]"
    by (simp add: sync_data_def Let_def slice_from_def slice_start_def upt_rec
        acc_time_before_sync_event_def label_time_before_sync_event_def py_int_def)
  show ?thesis
    using sync_data_aligned_unchanged [of "[7, 8, 9 :: int]" "[0, 1, - 9 :: int]"
        "[- 1, 0, 2 :: int]" 100] t
    by (simp split: prod.splits)
qed

section \<open>Properties of the moving standard deviation\<close>

text \<open>
  C5 (the code rejects what its docstring allows). The docstring of \<open>movingstd\<close> says
  that any contraction of the three mode words is valid, even a single character
  \<open>c\<close>, \<open>b\<close> or \<open>f\<close>; the check compares the lowered string with the three whole
  words, so each of these contractions raises \<open>ValueError\<close> for every data array and
  window size.
\<close>

theorem movingstd_rejects_contractions:
  "movingstd data window_size ''c'' = Inl (ValueError ''windowmode'') \<and>
   movingstd data window_size ''b'' = Inl (ValueError ''windowmode'') \<and>
   movingstd data window_size ''f'' = Inl (ValueError ''windowmode'') \<and>
   movingstd data window_size ''cent'' = Inl (ValueError ''windowmode'') \<and>
   movingstd data window_size ''F'' = Inl (ValueError ''windowmode'')"
  by (simp add: movingstd_def lower_def lower_char_def valid_def)

text \<open>
  C10. For every data array and window size, \<open>movingstd\<close> with windowmode \<open>forward\<close>
  and with windowmode \<open>backward\<close> gives the same outcome: the same error when a check
  fails, the same series otherwise.
\<close>

theorem movingstd_forward_eq_backward:
  "movingstd data window_size ''forward'' = movingstd data window_size ''backward''"
  by (simp add: movingstd_def lower_def lower_char_def valid_def s_forward_def s_backward_def
      Let_def)

section \<open>Properties of the windowing\<close>

subsection \<open>Strided windows\<close>

lemma step_slice_pos:
  assumes "0 < s"
  shows "step_slice xs s = map (\<lambda>k. xs ! (k * nat s)) [0 ..< (length xs + nat s - 1) div nat s]"
  using assms by (simp add: step_slice_def)

lemma strided_index_in_range:
  fixes k s m :: nat
  assumes "0 < s" and "k < (m + s - 1) div s"
  shows "k * s < m"
proof -
  from assms have "Suc k \<le> (m + s - 1) div s" by simp
  then have "Suc k * s \<le> m + s - 1"
    using assms(1) by (simp add: less_eq_div_iff_mult_less_eq)
  then show ?thesis using assms(1) by (cases s) auto
qed

lemma strided_windows:
  assumes "0 < s" and "w \<le> length x"
  shows "step_slice (map (\<lambda>i. take w (drop i x)) [0 ..< length x - w + 1]) s
         = map (\<lambda>k. take w (drop (k * nat s) x)) [0 ..< (length x - w + nat s) div nat s]"
proof -
  let ?m = "length x - w + 1"
  have len: "(?m + nat s - 1) div nat s = (length x - w + nat s) div nat s" by simp
  have "map (\<lambda>k. map (\<lambda>i. take w (drop i x)) [0 ..< ?m] ! (k * nat s)) [0 ..< (?m + nat s - 1) div nat s]
      = map (\<lambda>k. take w (drop (k * nat s) x)) [0 ..< (?m + nat s - 1) div nat s]"
  proof (rule map_cong [OF refl])
    fix k assume "k \<in> set [0 ..< (?m + nat s - 1) div nat s]"
    then have "k < (?m + nat s - 1) div nat s" by simp
    then have "k * nat s < ?m"
      using strided_index_in_range [of "nat s" k ?m] assms(1) by simp
    then show "map (\<lambda>i. take w (drop i x)) [0 ..< ?m] ! (k * nat s) = take w (drop (k * nat s) x)"
      by (simp del: upt_Suc)
  qed
  then show ?thesis
    using assms(1) by (simp add: step_slice_pos len del: upt_Suc)
qed

subsection \<open>Rounding to binary64\<close>







lemma bitlen_bounds: "0 < n \<Longrightarrow> 2 ^ (bitlen n - 1) \<le> n \<and> n < 2 ^ bitlen n"
proof (induction n rule: bitlen.induct)
  case (1 n)
  show ?case
  proof (cases "n = 1")
    case True
    then show ?thesis by (simp add: bitlen.simps [of 1] bitlen.simps [of 0])
  next
    case False
    with "1.prems" have h: "0 < n div 2" by simp
    let ?b = "bitlen (n div 2)"
    from "1.IH" h "1.prems" have ih: "2 ^ (?b - 1) \<le> n div 2" "n div 2 < 2 ^ ?b" by simp_all
    have b: "0 < ?b" using h by (simp add: bitlen.simps [of "n div 2"])
    have bl: "bitlen n = Suc ?b" using "1.prems" by (simp add: bitlen.simps [of n])
    have "(2::int) ^ ?b = 2 * 2 ^ (?b - 1)" using b by (cases ?b) simp_all
    with ih(1) have lo: "2 ^ ?b \<le> n" by linarith
    from ih(2) have hi: "n < 2 * 2 ^ ?b" by linarith
    from lo hi show ?thesis by (simp add: bl)
  qed
qed

lemma bitlen_pos: "0 < n \<Longrightarrow> 0 < bitlen n"
  by (simp add: bitlen.simps [of n])


lemma ilog2_less:
  assumes "0 < a"
  shows "a < pow2 (ilog2 a + 1)"
proof (cases "1 \<le> a")
  case True
  then have n: "0 < \<lfloor>a\<rfloor>" by linarith
  from bitlen_bounds [OF n] have "\<lfloor>a\<rfloor> + 1 \<le> 2 ^ bitlen \<lfloor>a\<rfloor>" by linarith
  then have "(of_int (\<lfloor>a\<rfloor> + 1) :: rat) \<le> of_int (2 ^ bitlen \<lfloor>a\<rfloor>)"
    by (simp only: of_int_le_iff)
  moreover have "a < of_int (\<lfloor>a\<rfloor> + 1)" by linarith
  ultimately have "a < of_int (2 ^ bitlen \<lfloor>a\<rfloor>)" by linarith
  moreover have "pow2 (ilog2 a + 1) = of_int (2 ^ bitlen \<lfloor>a\<rfloor>)"
    using True by (simp add: ilog2_def pow2_def)
  ultimately show ?thesis by simp
next
  case False
  let ?m = "\<lceil>1 / a\<rceil> - 1"
  from False assms have "1 < 1 / a" by simp
  then have m: "0 < ?m" by linarith
  have b: "0 < bitlen ?m" by (rule bitlen_pos [OF m])
  from bitlen_bounds [OF m] have "(2::int) ^ (bitlen ?m - 1) \<le> ?m" by simp
  then have "(of_int (2 ^ (bitlen ?m - 1)) :: rat) \<le> of_int ?m"
    by (simp only: of_int_le_iff)
  moreover have "of_int ?m < 1 / a" by linarith
  ultimately have "of_int (2 ^ (bitlen ?m - 1)) < 1 / a" by (rule le_less_trans)
  then have "(2::rat) ^ (bitlen ?m - 1) < 1 / a" by simp
  then have "a < 1 / 2 ^ (bitlen ?m - 1)"
    using assms by (simp add: field_simps)
  moreover have "pow2 (ilog2 a + 1) = 1 / 2 ^ (bitlen ?m - 1)"
  proof (cases "bitlen ?m = 1")
    case True
    then show ?thesis using False by (simp add: ilog2_def pow2_def)
  next
    case False
    with b have "1 < bitlen ?m" by simp
    then show ?thesis using \<open>\<not> 1 \<le> a\<close>
      by (simp add: ilog2_def pow2_def nat_diff_distrib')
  qed
  ultimately show ?thesis by simp
qed


lemma round_half_even_nearest: "\<bar>of_int (round_half_even m) - m\<bar> \<le> 1 / 2"
  unfolding round_half_even_def Let_def by (auto simp: abs_if) linarith+




subsection \<open>Severity of a window\<close>







subsection \<open>The mode of a window\<close>

lemma mode_step_inv:
  assumes inv: "mode_inv a ps best" and x: "x \<in> set a" and above: "\<forall>v \<in> set ps. v < x"
  shows "mode_inv a (ps @ [x]) (mode_step a best x)"
proof -
  have pos: "0 < count_list a x" using x count_list_0_iff [of a x] by simp
  show ?thesis
  proof (cases "snd best < count_list a x")
    case True
    then have step: "mode_step a best x = (x, count_list a x)"
      by (simp add: mode_step_def Let_def max_def)
    from inv True have "\<forall>v \<in> set ps. count_list a v < count_list a x"
      by (auto simp: mode_inv_def)
    then show ?thesis using pos by (auto simp: mode_inv_def step)
  next
    case False
    then have step: "mode_step a best x = best"
      by (simp add: mode_step_def Let_def max_def prod_eq_iff)
    from False pos have "snd best \<noteq> 0" by simp
    with inv have old: "fst best \<in> set ps" "snd best = count_list a (fst best)" "0 < snd best"
      "\<forall>v \<in> set ps. count_list a v \<le> snd best \<and> (count_list a v = snd best \<longrightarrow> fst best \<le> v)"
      by (auto simp: mode_inv_def)
    from old(1) above have "fst best \<le> x" by auto
    with old False show ?thesis by (auto simp: mode_inv_def step)
  qed
qed

lemma mode_foldl_inv:
  assumes "sorted (ps @ rest)" and "distinct (ps @ rest)" and "set rest \<subseteq> set a"
    and "mode_inv a ps best"
  shows "mode_inv a (ps @ rest) (foldl (mode_step a) best rest)"
  using assms
proof (induction rest arbitrary: ps best)
  case Nil
  then show ?case by simp
next
  case (Cons x rest)
  have above: "\<forall>v \<in> set ps. v < x"
  proof
    fix v assume v: "v \<in> set ps"
    with Cons.prems(1) have "v \<le> x" by (auto simp: sorted_append)
    moreover from v Cons.prems(2) have "v \<noteq> x" by auto
    ultimately show "v < x" by simp
  qed
  have "mode_inv a (ps @ [x]) (mode_step a best x)"
    using mode_step_inv [OF Cons.prems(4) _ above] Cons.prems(3) by simp
  then have "mode_inv a ((ps @ [x]) @ rest) (foldl (mode_step a) (mode_step a best x) rest)"
    using Cons.prems by (intro Cons.IH) auto
  then show ?case by simp
qed

lemma mode_is_lowest_mode:
  assumes "a \<noteq> []"
  shows "is_lowest_mode a (mode a)"
proof -
  let ?vs = "sort (remdups a)"
  have "mode_inv a ([] @ ?vs) (foldl (mode_step a) (0, 0) ?vs)"
    by (rule mode_foldl_inv) (simp_all add: mode_inv_def)
  moreover have "?vs \<noteq> []" using assms by (metis set_empty set_remdups set_sort)
  ultimately have "fst (foldl (mode_step a) (0, 0) ?vs) \<in> set a"
    and "\<forall>v \<in> set a. count_list a v \<le> count_list a (fst (foldl (mode_step a) (0, 0) ?vs)) \<and>
           (count_list a v = count_list a (fst (foldl (mode_step a) (0, 0) ?vs))
             \<longrightarrow> fst (foldl (mode_step a) (0, 0) ?vs) \<le> v)"
    by (auto simp: mode_inv_def)
  then show ?thesis
    unfolding mode_def is_lowest_mode_def by blast
qed

subsection \<open>What a successful call returns\<close>

lemma sliding_window_view_Inr:
  "sliding_window_view x w = Inr v \<Longrightarrow>
     w \<le> length x \<and> v = map (\<lambda>i. take w (drop i x)) [0 ..< length x - w + 1]"
  by (auto simp: sliding_window_view_def split: if_splits)

lemma windows_InrD:
  assumes "windows data labels chorea w s incl = Inr r" and "0 < s"
  shows "w \<le> length data" and "w \<le> length labels" and "w \<le> length chorea" and "2 \<le> w"
    and "windowed_data_all r
           = map (\<lambda>k. take w (drop (k * nat s) data)) [0 ..< (length data - w + nat s) div nat s]"
    and "windowed_labels_all r
           = map (\<lambda>k. mode (take w (drop (k * nat s) labels)))
               [0 ..< (length labels - w + nat s) div nat s]"
    and "windowed_chorea_all r
           = chorea_reduce (map (\<lambda>k. take w (drop (k * nat s) chorea))
               [0 ..< (length chorea - w + nat s) div nat s]) w"
    and "NumWin r = (length labels - w + nat s) div nat s"
    and "2 \<le> NumWin r"
    and "inclusion_idx r = incl"
proof -
  from assms(1) obtain vd vl vc where v: "sliding_window_view data w = Inr vd"
    "sliding_window_view labels w = Inr vl" "sliding_window_view chorea w = Inr vc"
    unfolding windows_def by (auto split: sum.splits)
  note vs = v [THEN sliding_window_view_Inr]
  from vs show le: "w \<le> length data" "w \<le> length labels" "w \<le> length chorea"
    by simp_all
  have sd: "step_slice vd s = map (\<lambda>k. take w (drop (k * nat s) data)) [0 ..< (length data - w + nat s) div nat s]"
    using strided_windows [OF assms(2) le(1)] vs(1) by simp
  have sl: "step_slice vl s = map (\<lambda>k. take w (drop (k * nat s) labels)) [0 ..< (length labels - w + nat s) div nat s]"
    using strided_windows [OF assms(2) le(2)] vs(2) by simp
  have sc: "step_slice vc s = map (\<lambda>k. take w (drop (k * nat s) chorea)) [0 ..< (length chorea - w + nat s) div nat s]"
    using strided_windows [OF assms(2) le(3)] vs(3) by simp
  from assms(1) have c: "2 \<le> length (step_slice vl s)" "w \<noteq> 1" "w \<noteq> 0"
    and r: "r = \<lparr>windowed_data_all = step_slice vd s,
                 windowed_labels_all = map mode (step_slice vl s),
                 windowed_chorea_all = chorea_reduce (step_slice vc s) w,
                 inclusion_idx = incl,
                 NumWin = length (step_slice vl s)\<rparr>"
    unfolding windows_def v sum.case Let_def by (simp_all split: if_splits)
  from c show "2 \<le> w" by simp
  from r show "windowed_data_all r
           = map (\<lambda>k. take w (drop (k * nat s) data)) [0 ..< (length data - w + nat s) div nat s]"
    by (simp add: sd)
  from r show "windowed_labels_all r
           = map (\<lambda>k. mode (take w (drop (k * nat s) labels)))
               [0 ..< (length labels - w + nat s) div nat s]"
    by (simp add: sl comp_def)
  from r show "windowed_chorea_all r
           = chorea_reduce (map (\<lambda>k. take w (drop (k * nat s) chorea))
               [0 ..< (length chorea - w + nat s) div nat s]) w"
    by (simp add: sc)
  from r show n: "NumWin r = (length labels - w + nat s) div nat s"
    by (simp add: sl)
  from r c show "2 \<le> NumWin r" by simp
  from r show "inclusion_idx r = incl" by simp
qed

lemma data_windowing_InrD:
  assumes "data_windowing h data labels chorea W ov a = (Inr r, h')" and "0 \<le> ov" and "ov < W"
  shows "windows data labels chorea (nat W) (W - ov) (length h) = Inr r"
    and "h' = h @ [assign_from (mask_select (h ! a)) (int (length data) div (W - ov) * (W - ov) - ov) 0]"
  using assms by (simp_all add: data_windowing_def alloc_def Let_def)

lemma window_count_overlap:
  fixes n :: nat and W ov :: int
  assumes "0 \<le> ov" and "ov < W" and "nat W \<le> n"
  shows "(n - nat W + nat (W - ov)) div nat (W - ov) = (n - nat ov) div nat (W - ov)"
proof -
  have "n - nat W + nat (W - ov) = n - nat ov" using assms by linarith
  then show ?thesis by simp
qed

lemma window_nth:
  fixes x :: "'a list"
  assumes "0 < s" and "w \<le> length x" and "k < (length x - w + s) div s"
  shows "k * s + w \<le> length x"
proof -
  have "k < (length x - w + 1 + s - 1) div s" using assms(3) by simp
  then have "k * s < length x - w + 1"
    using strided_index_in_range [OF assms(1)] by blast
  then show ?thesis using assms(2) by simp
qed

lemma mask_select_replicate: "mask_select xs = replicate (count_list xs 1) 1"
  unfolding mask_select_def by (induction xs) auto

lemma assign_from_replicate:
  assumes "0 \<le> tail_start"
  shows "assign_from (replicate c 1) tail_start 0
           = replicate (min c (nat tail_start)) 1 @ replicate (c - nat tail_start) 0"
  using assms by (simp add: assign_from_def slice_start_def Let_def min_def)

lemma upper_limit_above_overlap:
  fixes n :: nat and W ov :: int
  assumes "0 \<le> ov" and "ov < W" and "nat W \<le> n"
  shows "0 \<le> int n div (W - ov) * (W - ov) - ov"
proof -
  have s: "0 < W - ov" using assms(2) by simp
  have "int n div (W - ov) * (W - ov) = int n - int n mod (W - ov)"
    by (simp add: minus_mod_eq_div_mult)
  moreover have "int n mod (W - ov) < W - ov" using s by simp
  moreover have "W \<le> int n" using assms by linarith
  ultimately show ?thesis by linarith
qed

lemma data_windowing_frame:
  assumes "a < length h" and "data_windowing h data labels chorea W ov a = (res, h')"
  shows "h' ! a = h ! a"
  using assms
  by (auto simp: data_windowing_def alloc_def Let_def nth_append split: if_splits)

lemma data_windowing_returns:
  assumes "0 \<le> ov" and "ov < W" and "2 \<le> W"
    and "nat W \<le> length data"
    and "nat W + nat (W - ov) \<le> length labels"
    and "nat W + nat (W - ov) \<le> length chorea"
  shows "\<exists>r h'. data_windowing h data labels chorea W ov a = (Inr r, h')"
proof -
  let ?s = "nat (W - ov)"
  have s: "0 < ?s" using assms(2) by simp
  have two: "2 \<le> (n - nat W + 1 + ?s - 1) div ?s" if "nat W + ?s \<le> n" for n
  proof -
    from that have "2 * ?s \<le> n - nat W + 1 + ?s - 1" by simp
    then show ?thesis using s by (simp add: less_eq_div_iff_mult_less_eq)
  qed
  have "2 \<le> length (step_slice (map (\<lambda>i. take (nat W) (drop i x)) [0 ..< length x - nat W + 1]) (W - ov))"
    if "nat W + ?s \<le> length x" for x :: "int list"
    using two [OF that] assms(2) by (simp add: step_slice_def del: upt_Suc)
  moreover have "nat W \<noteq> Suc 0" and "nat W \<noteq> 0" using assms(3) by linarith+
  ultimately show ?thesis
    using assms
    by (simp add: data_windowing_def windows_def sliding_window_view_def alloc_def Let_def
        del: upt_Suc)
qed

lemma ex_call:
  "data_windowing ex_store ex_data ex_labels ex_chorea 3 1 0 =
     (Inr ex_result, [ [1, 1, 1, 1, 1, 1, 1, 1], [1, 1, 1, 1, 1, 1, 1, 0] ])"
  by code_simp


subsection \<open>The claims about the windowing\<close>

text \<open>
  C2, as the code has it. For a call with \<open>0 \<le> O < W\<close> that returns, with
  \<open>stride = W - O\<close>: the number of signal windows is \<open>floor((N - O) / stride)\<close> for
  \<open>N\<close> signal samples (and \<open>NumWin\<close> is the same expression of the number of labels),
  not \<open>floor(N / stride)\<close>; window \<open>k\<close> starts at sample \<open>k * stride\<close> and is the
  \<open>W\<close> consecutive samples from there.
\<close>

theorem data_windowing_window_count:
  assumes "0 \<le> ov" and "ov < W"
    and "data_windowing h data labels chorea W ov a = (Inr r, h')"
  shows "length (windowed_data_all r) = (length data - nat ov) div nat (W - ov) \<and>
         NumWin r = (length labels - nat ov) div nat (W - ov) \<and>
         (k < length (windowed_data_all r) \<longrightarrow>
            windowed_data_all r ! k = take (nat W) (drop (k * nat (W - ov)) data) \<and>
            length (windowed_data_all r ! k) = nat W)"
proof -
  let ?s = "nat (W - ov)"
  have s: "0 < W - ov" using assms(2) by simp
  note w = data_windowing_InrD(1) [OF assms(3) assms(1) assms(2)]
  note d = windows_InrD [OF w s]
  have n1: "length (windowed_data_all r) = (length data - nat ov) div ?s"
    using d(5) window_count_overlap [OF assms(1,2) d(1)] by simp
  have n2: "NumWin r = (length labels - nat ov) div ?s"
    using d(8) window_count_overlap [OF assms(1,2) d(2)] by simp
  have "windowed_data_all r ! k = take (nat W) (drop (k * ?s) data) \<and>
        length (windowed_data_all r ! k) = nat W" if "k < length (windowed_data_all r)"
  proof -
    from that d(5) have k: "k < (length data - nat W + ?s) div ?s" by simp
    have "k * ?s + nat W \<le> length data"
      using window_nth [OF _ d(1) k] s by simp
    then show ?thesis using d(5) k by (simp del: upt_Suc)
  qed
  with n1 n2 show ?thesis by blast
qed

text \<open>
  The example call returns 3 windows where \<open>floor(N / stride) = floor(8 / 2) = 4\<close>.
\<close>

theorem data_windowing_window_count_counterexample:
  "fst (data_windowing ex_store ex_data ex_labels ex_chorea 3 1 0) = Inr ex_result \<and>
   length (windowed_data_all ex_result) = 3 \<and> NumWin ex_result = 3 \<and>
   length ex_data div nat (3 - 1) = 4"
proof -
  have "fst (data_windowing ex_store ex_data ex_labels ex_chorea 3 1 0) = Inr ex_result"
    by (simp add: ex_call)
  moreover have "length (windowed_data_all ex_result) = 3 \<and> NumWin ex_result = 3"
    by (simp add: ex_result_def)
  moreover have "length ex_data div nat (3 - 1) = 4"
    by (simp add: ex_data_def)
  ultimately show ?thesis by simp
qed

theorem data_windowing_window_count_witness:
  "length (windowed_data_all ex_result) = (length ex_data - nat 1) div nat (3 - 1) \<and>
   NumWin ex_result = (length ex_labels - nat 1) div nat (3 - 1) \<and>
   2 < length (windowed_data_all ex_result) \<and>
   windowed_data_all ex_result ! 2 = take (nat 3) (drop (2 * nat (3 - 1)) ex_data) \<and>
   length (windowed_data_all ex_result ! 2) = nat 3"
proof -
  have "(0::int) \<le> 1" and "(1::int) < 3" by simp_all
  from data_windowing_window_count [OF this ex_call, of 2]
  have "length (windowed_data_all ex_result) = (length ex_data - nat 1) div nat (3 - 1)"
    and "NumWin ex_result = (length ex_labels - nat 1) div nat (3 - 1)"
    and "2 < length (windowed_data_all ex_result) \<longrightarrow>
      windowed_data_all ex_result ! 2 = take (nat 3) (drop (2 * nat (3 - 1)) ex_data) \<and>
      length (windowed_data_all ex_result ! 2) = nat 3"
    by blast+
  moreover have "2 < length (windowed_data_all ex_result)"
    by (simp add: ex_result_def)
  ultimately show ?thesis by blast
qed

text \<open>
  C3, as the code has it. For a call with \<open>0 \<le> O < W\<close> that returns, the category
  label of window \<open>k\<close> is the mode of all \<open>W\<close> codes of the window, ties broken by the
  lowest code; the code \<open>-9\<close> is counted like every other code.
\<close>

theorem data_windowing_label_is_mode:
  assumes "0 \<le> ov" and "ov < W"
    and "data_windowing h data labels chorea W ov a = (Inr r, h')"
    and "k < NumWin r"
  shows "length (windowed_labels_all r) = NumWin r \<and>
         is_lowest_mode (take (nat W) (drop (k * nat (W - ov)) labels))
           (windowed_labels_all r ! k)"
proof -
  let ?s = "nat (W - ov)"
  have s: "0 < W - ov" using assms(2) by simp
  note w = data_windowing_InrD(1) [OF assms(3) assms(1) assms(2)]
  note d = windows_InrD [OF w s]
  have len: "length (windowed_labels_all r) = NumWin r"
    using d(6) d(8) by simp
  from assms(4) d(8) have k: "k < (length labels - nat W + ?s) div ?s" by simp
  have "k * ?s + nat W \<le> length labels"
    using window_nth [OF _ d(2) k] s by simp
  with d(4) have "take (nat W) (drop (k * ?s) labels) \<noteq> []" by auto
  then have "is_lowest_mode (take (nat W) (drop (k * ?s) labels))
               (mode (take (nat W) (drop (k * ?s) labels)))"
    by (rule mode_is_lowest_mode)
  then have "is_lowest_mode (take (nat W) (drop (k * ?s) labels)) (windowed_labels_all r ! k)"
    using d(6) k by (simp del: upt_Suc)
  with len show ?thesis by blast
qed

text \<open>
  The third window of the example holds the codes \<open>1, -9, -9\<close>: its label is \<open>-9\<close>,
  which is not a mode of the window once the codes \<open>-9\<close> are left out of the vote.
\<close>

theorem data_windowing_label_is_mode_counterexample:
  "fst (data_windowing ex_store ex_data ex_labels ex_chorea 3 1 0) = Inr ex_result \<and>
   windowed_labels_all ex_result ! 2 = - 9 \<and>
   take (nat 3) (drop (2 * nat (3 - 1)) ex_labels) = [1, - 9, - 9] \<and>
   spec_votes [1, - 9, - 9] = [1] \<and>
   \<not> is_lowest_mode (spec_votes [1, - 9, - 9]) (- 9)"
proof -
  have "fst (data_windowing ex_store ex_data ex_labels ex_chorea 3 1 0) = Inr ex_result"
    by (simp add: ex_call)
  moreover have "windowed_labels_all ex_result ! 2 = - 9"
    by (simp add: ex_result_def)
  moreover have "take (nat 3) (drop (2 * nat (3 - 1)) ex_labels) = [1, - 9, - 9]"
    by (simp add: ex_labels_def)
  moreover have "spec_votes [1, - 9, - 9] = [1]"
    by (simp add: spec_votes_def)
  ultimately show ?thesis
    by (simp add: is_lowest_mode_def)
qed

theorem data_windowing_label_is_mode_witness:
  "length (windowed_labels_all ex_result) = NumWin ex_result \<and>
   is_lowest_mode (take (nat 3) (drop (2 * nat (3 - 1)) ex_labels)) (windowed_labels_all ex_result ! 2)"
proof -
  have "(0::int) \<le> 1" and "(1::int) < 3" and "2 < NumWin ex_result"
    by (simp_all add: ex_result_def)
  then show ?thesis by (rule data_windowing_label_is_mode [OF _ _ ex_call])
qed




text \<open>
  C8, as the code has it. The call leaves the caller's \<open>std_idx\<close> array as it was.
  The mask that is cut at the tail is a new array: for a call with \<open>0 \<le> O < W\<close> that
  returns, it lives at another address than \<open>std_idx\<close> and holds one entry for each 1
  of \<open>std_idx\<close>, the entries before position \<open>upper_limit - O\<close> being 1 and the
  entries from there on being 0.
\<close>

theorem data_windowing_mask_is_new_array:
  assumes "a < length h"
    and "data_windowing h data labels chorea W ov a = (res, h')"
  shows "h' ! a = h ! a \<and>
         (\<forall>r. 0 \<le> ov \<and> ov < W \<and> res = Inr r \<longrightarrow>
            inclusion_idx r \<noteq> a \<and>
            h' ! inclusion_idx r =
              (let c = count_list (h ! a) 1;
                   tail_start = nat (int (length data) div (W - ov) * (W - ov) - ov)
               in replicate (min c tail_start) 1 @ replicate (c - tail_start) 0))"
proof -
  have "inclusion_idx r \<noteq> a \<and>
        h' ! inclusion_idx r =
          (let c = count_list (h ! a) 1;
               tail_start = nat (int (length data) div (W - ov) * (W - ov) - ov)
           in replicate (min c tail_start) 1 @ replicate (c - tail_start) 0)"
    if ov: "0 \<le> ov" "ov < W" and r: "res = Inr r" for r
  proof -
    have s: "0 < W - ov" using ov by simp
    from assms(2) r have call: "data_windowing h data labels chorea W ov a = (Inr r, h')"
      by simp
    note w = data_windowing_InrD [OF call ov]
    note d = windows_InrD [OF w(1) s]
    have tail_start: "0 \<le> int (length data) div (W - ov) * (W - ov) - ov"
      using upper_limit_above_overlap [OF ov d(1)] .
    have "h' ! inclusion_idx r
            = assign_from (mask_select (h ! a)) (int (length data) div (W - ov) * (W - ov) - ov) 0"
      using w(2) d(10) by simp
    then show ?thesis
      using assms(1) d(10) assign_from_replicate [OF tail_start]
      by (simp add: mask_select_replicate Let_def)
  qed
  with data_windowing_frame [OF assms] show ?thesis by blast
qed

text \<open>
  In the example \<open>upper_limit - O = 7\<close>, and after the call position 7 of the caller's
  array still holds 1.
\<close>

theorem data_windowing_mask_is_new_array_counterexample:
  "snd (data_windowing ex_store ex_data ex_labels ex_chorea 3 1 0) ! 0 = [1, 1, 1, 1, 1, 1, 1, 1] \<and>
   int (length ex_data) div (3 - 1) * (3 - 1) - 1 = 7 \<and>
   snd (data_windowing ex_store ex_data ex_labels ex_chorea 3 1 0) ! 0 ! 7 \<noteq> 0"
proof -
  have "snd (data_windowing ex_store ex_data ex_labels ex_chorea 3 1 0) ! 0 = [1, 1, 1, 1, 1, 1, 1, 1]"
    by (simp add: ex_call)
  moreover have "int (length ex_data) div (3 - 1) * (3 - 1) - 1 = 7"
    by (simp add: ex_data_def)
  ultimately show ?thesis by simp
qed

theorem data_windowing_mask_is_new_array_witness:
  "snd (data_windowing ex_store ex_data ex_labels ex_chorea 3 1 0) ! 0 = ex_store ! 0 \<and>
   inclusion_idx ex_result \<noteq> 0 \<and>
   snd (data_windowing ex_store ex_data ex_labels ex_chorea 3 1 0) ! inclusion_idx ex_result
     = [1, 1, 1, 1, 1, 1, 1, 0]"
proof -
  have "(0::nat) < length ex_store" by (simp add: ex_store_def)
  from data_windowing_mask_is_new_array [OF this ex_call]
  show ?thesis by (simp add: ex_call ex_result_def)
qed

end
